theory Spec2Isabelle
  imports Complex_Main
begin

section \<open>Numbers of the capture path\<close>

text \<open>
  The capture callback computes in IEEE doubles and stores samples in a \<open>Float32Array\<close>.
  A finite binary format with \<open>p\<close> significant bits and least exponent \<open>emin\<close> rounds a
  real to the nearest multiple of the quantum of its binade, ties to the even multiple.
  Overflow to infinity is left out: samples lie in \<open>[-1, 1]\<close> and the gain slider ends at 3.
\<close>

definition pow2 :: "int \<Rightarrow> real" where
  "pow2 k = (if 0 \<le> k then 2 ^ nat k else 1 / 2 ^ nat (- k))"

text \<open>The binary exponent of a positive number: halve from above 2, double from below 1/2.\<close>

function exponent_up :: "real \<Rightarrow> int" where
  "exponent_up x = (if x < 2 then 0 else exponent_up (x / 2) + 1)"
  by pat_completeness auto
termination
proof (relation "measure (\<lambda>x. nat \<lfloor>x\<rfloor>)")
  show "wf (measure (\<lambda>x::real. nat \<lfloor>x\<rfloor>))" by simp
next
  fix x :: real assume "\<not> x < 2"
  then have "\<lfloor>x / 2\<rfloor> < \<lfloor>x\<rfloor>" and "0 < \<lfloor>x\<rfloor>" by linarith+
  then show "(x / 2, x) \<in> measure (\<lambda>x. nat \<lfloor>x\<rfloor>)" by simp
qed

function exponent_down :: "real \<Rightarrow> int" where
  "exponent_down x = (if x \<le> 0 \<or> 1 / 2 \<le> x then - 1 else exponent_down (2 * x) - 1)"
  by pat_completeness auto
termination
proof (relation "measure (\<lambda>x. nat \<lfloor>1 / x\<rfloor>)")
  show "wf (measure (\<lambda>x::real. nat \<lfloor>1 / x\<rfloor>))" by simp
next
  fix x :: real assume "\<not> (x \<le> 0 \<or> 1 / 2 \<le> x)"
  then have x: "0 < x" "x < 1 / 2" by simp_all
  then have "2 < 1 / x" by (simp add: field_simps)
  moreover have "1 / (2 * x) = (1 / x) / 2" by simp
  ultimately have "\<lfloor>1 / (2 * x)\<rfloor> < \<lfloor>1 / x\<rfloor>" and "0 < \<lfloor>1 / x\<rfloor>" by linarith+
  then show "(2 * x, x) \<in> measure (\<lambda>x. nat \<lfloor>1 / x\<rfloor>)" by simp
qed

declare exponent_up.simps [simp del] exponent_down.simps [simp del]

definition binary_exponent :: "real \<Rightarrow> int" where
  "binary_exponent x = (if 1 \<le> \<bar>x\<bar> then exponent_up \<bar>x\<bar> else exponent_down \<bar>x\<bar>)"

definition round_half_even :: "real \<Rightarrow> int" where
  "round_half_even x =
     (let f = \<lfloor>x\<rfloor> in
      if x - of_int f < 1 / 2 then f
      else if 1 / 2 < x - of_int f then f + 1
      else if even f then f else f + 1)"

definition binary_round :: "nat \<Rightarrow> int \<Rightarrow> real \<Rightarrow> real" where
  "binary_round p emin x =
     (if x = 0 then 0
      else (let e = max (binary_exponent x) emin;
                quantum = pow2 (e - (int p - 1))
            in of_int (round_half_even (x / quantum)) * quantum))"

text \<open>Storing into a \<open>Float32Array\<close>, and the result of one double operation.\<close>

definition to_float32 :: "real \<Rightarrow> real" where
  "to_float32 = binary_round 24 (- 126)"

definition to_float64 :: "real \<Rightarrow> real" where
  "to_float64 = binary_round 53 (- 1022)"

text \<open>
  The two roundings the callback goes through. \<open>ieee_arith\<close> is what the code runs on;
  \<open>exact_arith\<close> rounds nothing and is the arithmetic in which the spec states its
  algebraic properties.
\<close>

record arithmetic =
  f32 :: "real \<Rightarrow> real"
  f64 :: "real \<Rightarrow> real"

definition ieee_arith :: arithmetic where
  "ieee_arith = \<lparr>f32 = to_float32, f64 = to_float64\<rparr>"

definition exact_arith :: arithmetic where
  "exact_arith = \<lparr>f32 = (\<lambda>x. x), f64 = (\<lambda>x. x)\<rparr>"

section \<open>Capture callback: gain, energy measurement and voice activity detection\<close>

text \<open>
  The capture callback is \<open>scriptProcessor.onaudioprocess\<close> of
  \<open>src/components/ConversationView.tsx\<close>. Samples, gain and threshold are the real numbers
  the JavaScript values denote; every double operation and every store into the frame
  goes through the rounding of the arithmetic in force. \<open>Date.now()\<close> and the hangover
  duration (read with \<open>parseInt\<close>) are integers.
\<close>

record vad_state =
  wasUserTalking :: bool
  lastSilenceTime :: int

datatype vad_event = SpeechStart | SpeechStop

text \<open>
  What one invocation of the callback reads: the two refs of its guard, the frame, the
  tuning refs \<open>inputGainRef\<close>, \<open>vadThresholdRef\<close>, \<open>vadDurationRef\<close>, and the clock
  through \<open>Date.now()\<close>.
\<close>

record capture_env =
  isPausedNow :: bool
  sessionPresent :: bool
  inputData :: "real list"
  currentGain :: real
  now :: int
  currentThreshold :: real
  currentDuration :: int

text \<open>
  What one invocation that passes the guard produces: the frame as left in the buffer by
  the in-place loop, the local \<open>rms\<close> (\<open>None\<close> stands for \<open>NaN\<close>), the VAD refs, the
  transition signalled through \<open>setIsUserTalkingLocal\<close> and \<open>playFeedbackSound\<close>, and the
  samples handed to \<open>createPcmBlob\<close> for sending.
\<close>

record capture_result =
  buffer :: "real list"
  measured :: "real option"
  vadAfter :: vad_state
  event :: "vad_event option"
  sent :: "real list"

text \<open>
  The loop \<open>for (i ...) { inputData[i] *= currentGain; sum += inputData[i] * inputData[i]; }\<close>:
  it returns the mutated samples and the accumulated \<open>sum\<close> (here \<open>acc\<close>). The product is
  a double that the store rounds to float32; the square is taken of the stored sample.
\<close>

fun gain_loop :: "arithmetic \<Rightarrow> real \<Rightarrow> real list \<Rightarrow> real \<Rightarrow> real list \<times> real" where
  "gain_loop ar g [] acc = ([], acc)"
| "gain_loop ar g (x # xs) acc =
     (let y = f32 ar (f64 ar (x * g));
          r = gain_loop ar g xs (f64 ar (acc + f64 ar (y * y)))
      in (y # fst r, snd r))"

text \<open>
  \<open>Math.sqrt(sum / inputData.length)\<close>. On a frame of length zero the quotient is
  \<open>0 / 0\<close>, which is \<open>NaN\<close> in the source.
\<close>

definition js_rms :: "arithmetic \<Rightarrow> real \<Rightarrow> nat \<Rightarrow> real option" where
  "js_rms ar acc n =
     (if n = 0 then None else Some (f64 ar (sqrt (f64 ar (acc / real n)))))"

text \<open>\<open>rms > currentThreshold\<close>; a comparison with \<open>NaN\<close> is false.\<close>

definition exceeds :: "real option \<Rightarrow> real \<Rightarrow> bool" where
  "exceeds r t = (case r of None \<Rightarrow> False | Some v \<Rightarrow> v > t)"

definition measured_rms :: "arithmetic \<Rightarrow> real \<Rightarrow> real list \<Rightarrow> real option" where
  "measured_rms ar g xs = js_rms ar (snd (gain_loop ar g xs 0)) (length xs)"

text \<open>The hysteresis step, lines 310 to 323 of the callback.\<close>

definition vad_step :: "bool \<Rightarrow> int \<Rightarrow> int \<Rightarrow> vad_state \<Rightarrow> vad_state \<times> vad_event option" where
  "vad_step loud t dur s =
     (if loud then
        (if \<not> wasUserTalking s
         then (s\<lparr>wasUserTalking := True, lastSilenceTime := t\<rparr>, Some SpeechStart)
         else (s\<lparr>lastSilenceTime := t\<rparr>, None))
      else
        (if wasUserTalking s \<and> t - lastSilenceTime s > dur
         then (s\<lparr>wasUserTalking := False\<rparr>, Some SpeechStop)
         else (s, None)))"

text \<open>The whole callback; \<open>None\<close> is the early return of its guard.\<close>

definition onaudioprocess ::
  "arithmetic \<Rightarrow> capture_env \<Rightarrow> vad_state \<Rightarrow> capture_result option" where
  "onaudioprocess ar env s =
     (if isPausedNow env \<or> \<not> sessionPresent env then None
      else
        (let data = fst (gain_loop ar (currentGain env) (inputData env) 0);
             rms = measured_rms ar (currentGain env) (inputData env);
             r = vad_step (exceeds rms (currentThreshold env)) (now env) (currentDuration env) s
         in Some \<lparr>buffer = data, measured = rms, vadAfter = fst r, event = snd r, sent = data\<rparr>))"

text \<open>Running the callback over successive invocations, threading the VAD refs.\<close>

fun vad_trace :: "arithmetic \<Rightarrow> vad_state \<Rightarrow> capture_env list \<Rightarrow> vad_event option list" where
  "vad_trace ar s [] = []"
| "vad_trace ar s (e # es) =
     (case onaudioprocess ar e s of
        None \<Rightarrow> None # vad_trace ar s es
      | Some r \<Rightarrow> event r # vad_trace ar (vadAfter r) es)"

fun vad_run :: "arithmetic \<Rightarrow> vad_state \<Rightarrow> capture_env list \<Rightarrow> vad_state" where
  "vad_run ar s [] = s"
| "vad_run ar s (e # es) =
     (case onaudioprocess ar e s of
        None \<Rightarrow> vad_run ar s es
      | Some r \<Rightarrow> vad_run ar (vadAfter r) es)"

fun emitted :: "vad_event option list \<Rightarrow> vad_event list" where
  "emitted [] = []"
| "emitted (None # xs) = emitted xs"
| "emitted (Some e # xs) = e # emitted xs"

fun opposite :: "vad_event \<Rightarrow> vad_event" where
  "opposite SpeechStart = SpeechStop"
| "opposite SpeechStop = SpeechStart"

fun alternates :: "vad_event \<Rightarrow> vad_event list \<Rightarrow> bool" where
  "alternates expected [] = True"
| "alternates expected (e # es) = (e = expected \<and> alternates (opposite e) es)"

text \<open>A processed frame whose measured energy is above the threshold in force.\<close>

definition is_loud :: "arithmetic \<Rightarrow> capture_env \<Rightarrow> bool" where
  "is_loud ar env =
     (\<not> isPausedNow env \<and> sessionPresent env \<and>
      exceeds (measured_rms ar (currentGain env) (inputData env)) (currentThreshold env))"

definition is_processed :: "capture_env \<Rightarrow> bool" where
  "is_processed env = (\<not> isPausedNow env \<and> sessionPresent env)"

text \<open>The energy of a frame as the spec words it: the root of the mean of the squares.\<close>

definition frame_rms :: "real list \<Rightarrow> real option" where
  "frame_rms xs = (if xs = [] then None else Some (sqrt ((\<Sum>x\<leftarrow>xs. x * x) / real (length xs))))"

text \<open>
  The energy of the samples a buffer holds, computed the way the callback computes it
  (summing the squares, dividing by the length, taking the root) with no gain applied.
\<close>

fun sum_squares :: "arithmetic \<Rightarrow> real list \<Rightarrow> real \<Rightarrow> real" where
  "sum_squares ar [] acc = acc"
| "sum_squares ar (y # ys) acc = sum_squares ar ys (f64 ar (acc + f64 ar (y * y)))"

definition buffer_rms :: "arithmetic \<Rightarrow> real list \<Rightarrow> real option" where
  "buffer_rms ar ys = js_rms ar (sum_squares ar ys 0) (length ys)"


section \<open>Strings, transcript entries and the grammar checker\<close>

text \<open>
  A JavaScript string is a sequence of UTF-16 code units. \<open>js\<close> embeds an ASCII literal.
\<close>

type_synonym js_string = "nat list"

definition js :: "string \<Rightarrow> js_string" where
  "js s = map of_char s"

text \<open>
  The code units removed by \<open>String.prototype.trim\<close>: the WhiteSpace and LineTerminator
  productions of ECMAScript.
\<close>

definition is_js_whitespace :: "nat \<Rightarrow> bool" where
  "is_js_whitespace c =
     (c \<in> set [9, 10, 11, 12, 13, 32, 160, 5760, 8232, 8233, 8239, 8287, 12288, 65279]
      \<or> (8192 \<le> c \<and> c \<le> 8202))"

definition js_trim :: "js_string \<Rightarrow> js_string" where
  "js_trim s = rev (dropWhile is_js_whitespace (rev (dropWhile is_js_whitespace s)))"

text \<open>\<open>text.split(' ')\<close>: the pieces between occurrences of U+0020, empty pieces included.\<close>

fun js_split_space :: "js_string \<Rightarrow> js_string list" where
  "js_split_space [] = [[]]"
| "js_split_space (c # cs) =
     (if c = 32 then [] # js_split_space cs
      else (case js_split_space cs of [] \<Rightarrow> [[c]] | p # ps \<Rightarrow> (c # p) # ps))"

datatype role = User | Model

record transcription_entry =
  role :: role
  etext :: js_string
  timestamp :: int
  correction :: "js_string option"

datatype challenge_status = Active | Evaluating | Completed

text \<open>
  What happens after the guards of \<open>checkGrammar\<close>: the client cannot be built (no request
  leaves), the request is rejected or its answer does not parse, or the answer parses to an
  object whose \<open>status\<close> and \<open>correctedText\<close> properties are given (\<open>None\<close> when absent).
  All failures are caught by the function.
\<close>

datatype grammar_outcome =
    ClientFailed
  | ResponseFailed
  | Parsed "js_string option" "js_string option"

text \<open>
  \<open>checkGrammar\<close>, lines 182 to 217. The first argument is the \<open>activeChallenge\<close> the
  function reads (its status only; \<open>None\<close> is \<open>null\<close>). The result is the entries after
  the update passed to \<open>setEntries\<close>, and the text of the request that was issued, if any.
\<close>

definition checkGrammar ::
  "challenge_status option \<Rightarrow> grammar_outcome \<Rightarrow> js_string \<Rightarrow> int \<Rightarrow>
   transcription_entry list \<Rightarrow> transcription_entry list \<times> js_string option" where
  "checkGrammar activeChallenge outcome txt ts es =
     (if txt = [] \<or> length (js_split_space txt) < 2 then (es, None)
      else if activeChallenge = Some Active then (es, None)
      else
        (case outcome of
           ClientFailed \<Rightarrow> (es, None)
         | ResponseFailed \<Rightarrow> (es, Some txt)
         | Parsed status correctedText \<Rightarrow>
             (if status = Some (js ''CORRECTION'') \<and> correctedText \<noteq> None \<and> correctedText \<noteq> Some []
              then (map (\<lambda>e. if timestamp e = ts then e\<lparr>correction := correctedText\<rparr> else e) es,
                    Some txt)
              else (es, Some txt))))"

text \<open>The words of a text as the spec counts them: the non-empty space-separated pieces.\<close>

definition space_separated_words :: "js_string \<Rightarrow> js_string list" where
  "space_separated_words txt = filter (\<lambda>w. w \<noteq> []) (js_split_space txt)"

text \<open>
  The grammar check a running session makes (the call at line 379). The \<open>onmessage\<close>
  handler is created inside \<open>startSession\<close>, which \<open>useCallback\<close> memoises with a
  dependency list (line 406) that names neither \<open>activeChallenge\<close> nor \<open>checkGrammar\<close>;
  \<open>checkGrammar\<close> itself is created anew by every render and closes over that render's
  \<open>activeChallenge\<close>. The handler therefore runs the \<open>checkGrammar\<close> of the render that
  created its \<open>startSession\<close>: the guard reads the challenge captured then, and the
  challenge state at the moment the text arrives is not read.
\<close>

definition session_checkGrammar ::
  "challenge_status option \<Rightarrow> challenge_status option \<Rightarrow> grammar_outcome \<Rightarrow> js_string \<Rightarrow> int \<Rightarrow>
   transcription_entry list \<Rightarrow> transcription_entry list \<times> js_string option" where
  "session_checkGrammar capturedChallenge currentChallenge outcome txt ts es =
     checkGrammar capturedChallenge outcome txt ts es"

section \<open>Session state, teardown and start\<close>

record playback_source =
  duration :: real
  startTime :: real
  playbackRate :: real

text \<open>\<open>transcriptionRef.current\<close>, with its fields \<open>input\<close> and \<open>output\<close>.\<close>

record turn_buffer =
  inputText :: js_string
  outputText :: js_string

text \<open>Calls that leave the component; the state keeps the list of those made so far.\<close>

datatype effect =
    SessionClose
  | AudioContextInClose
  | AudioContextOutClose
  | SourceStop playback_source
  | EvaluateChallengeResponse js_string
  | CheckGrammar js_string int

text \<open>
  The refs and React state of the component that the session code reads or writes. A ref
  holding an object is modelled by whether it is non-null. \<open>sourcesRef\<close> is a \<open>Set\<close> of
  freshly created nodes, kept here in insertion order.
\<close>

record session_state =
  sessionRef :: bool
  audioContextInRef :: bool
  audioContextOutRef :: bool
  outputGainNodeRef :: bool
  isPausedRef :: bool
  speechRateRef :: real
  outputPitchRef :: real
  nextStartTimeRef :: real
  sourcesRef :: "playback_source list"
  transcriptionRef :: turn_buffer
  vadRef :: vad_state
  entries :: "transcription_entry list"
  isActive :: bool
  isConnecting :: bool
  isSpeaking :: bool
  isUserTalkingLocal :: bool
  error :: "string option"
  effects :: "effect list"

text \<open>The values the refs of lines 70 to 75 are created with.\<close>

definition initial_nextStartTime :: real where
  "initial_nextStartTime = 0"

definition initial_transcription :: turn_buffer where
  "initial_transcription = \<lparr>inputText = [], outputText = []\<rparr>"

definition initial_vad :: vad_state where
  "initial_vad = \<lparr>wasUserTalking = False, lastSilenceTime = 0\<rparr>"

text \<open>
  A function returns or throws (an async function resolves or rejects); the writes made
  before a throw stay.
\<close>

datatype handler_result = Returned session_state | Threw session_state

definition state_of :: "handler_result \<Rightarrow> session_state" where
  "state_of r = (case r of Returned s \<Rightarrow> s | Threw s \<Rightarrow> s)"

text \<open>An outside call, which throws (or rejects) when \<open>throws\<close> says so.\<close>

definition perform :: "(effect \<Rightarrow> bool) \<Rightarrow> effect \<Rightarrow> session_state \<Rightarrow> handler_result" where
  "perform throws e s =
     (let s' = s\<lparr>effects := effects s @ [e]\<rparr> in if throws e then Threw s' else Returned s')"

text \<open>\<open>try { ... } catch (e) {}\<close> and \<open>promise.catch(() => {})\<close>.\<close>

definition catch_ignore :: "handler_result \<Rightarrow> session_state" where
  "catch_ignore r = (case r of Returned s \<Rightarrow> s | Threw s \<Rightarrow> s)"

text \<open>Starting an async function without awaiting it: nothing can be thrown at the caller.\<close>

definition fire_and_forget :: "effect \<Rightarrow> session_state \<Rightarrow> session_state" where
  "fire_and_forget e s = s\<lparr>effects := effects s @ [e]\<rparr>"

text \<open>\<open>sourcesRef.current.forEach(s => { try { s.stop(); } catch (e) {} })\<close>\<close>

fun stop_all :: "(effect \<Rightarrow> bool) \<Rightarrow> playback_source list \<Rightarrow> session_state \<Rightarrow> session_state" where
  "stop_all throws [] s = s"
| "stop_all throws (src # rest) s =
     stop_all throws rest (catch_ignore (perform throws (SourceStop src) s))"

text \<open>\<open>cleanup\<close>, lines 235 to 256.\<close>

definition cleanup :: "(effect \<Rightarrow> bool) \<Rightarrow> session_state \<Rightarrow> handler_result" where
  "cleanup throws s =
     (let s1 = (if sessionRef s
                then (catch_ignore (perform throws SessionClose s))\<lparr>sessionRef := False\<rparr>
                else s);
          s2 = (if audioContextInRef s1
                then (catch_ignore (perform throws AudioContextInClose s1))\<lparr>audioContextInRef := False\<rparr>
                else s1);
          s3 = (if audioContextOutRef s2
                then (catch_ignore (perform throws AudioContextOutClose s2))\<lparr>audioContextOutRef := False\<rparr>
                else s2);
          s4 = s3\<lparr>outputGainNodeRef := False\<rparr>;
          s5 = stop_all throws (sourcesRef s4) s4;
          s6 = s5\<lparr>sourcesRef := []\<rparr>
      in Returned (s6\<lparr>isActive := False, isUserTalkingLocal := False, isSpeaking := False\<rparr>))"

text \<open>
  \<open>startSession\<close>, lines 258 to 406. Its \<open>try\<close> block either reaches the assignment of
  \<open>sessionRef\<close> or fails at some step; the step decides which refs were already assigned,
  and the \<open>catch\<close> stores the message of \<open>getFriendlyErrorMessage\<close>.
\<close>

datatype start_failure = BeforeAudioIn | BeforeAudioOut | BeforeGainNode | BeforeSession

datatype start_outcome = Fails start_failure string | Connects

fun assigned_before :: "start_failure \<Rightarrow> session_state \<Rightarrow> session_state" where
  "assigned_before BeforeAudioIn s = s"
| "assigned_before BeforeAudioOut s = s\<lparr>audioContextInRef := True\<rparr>"
| "assigned_before BeforeGainNode s = s\<lparr>audioContextInRef := True, audioContextOutRef := True\<rparr>"
| "assigned_before BeforeSession s =
     s\<lparr>audioContextInRef := True, audioContextOutRef := True, outputGainNodeRef := True\<rparr>"

definition startSession ::
  "(effect \<Rightarrow> bool) \<Rightarrow> start_outcome \<Rightarrow> session_state \<Rightarrow> handler_result" where
  "startSession throws outcome s =
     (if isConnecting s then Returned s
      else
        (case cleanup throws s of
           Threw s' \<Rightarrow> Threw s'
         | Returned s1 \<Rightarrow>
             (let s2 = s1\<lparr>error := None, isConnecting := True\<rparr> in
              case outcome of
                Fails step msg \<Rightarrow>
                  Returned ((assigned_before step s2)\<lparr>error := Some msg, isConnecting := False\<rparr>)
              | Connects \<Rightarrow>
                  Returned ((assigned_before BeforeSession s2)\<lparr>sessionRef := True\<rparr>))))"

text \<open>The \<open>onopen\<close> callback, apart from attaching the capture callback.\<close>

definition onopen :: "session_state \<Rightarrow> session_state" where
  "onopen s = s\<lparr>isActive := True, isConnecting := False\<rparr>"


section \<open>Inbound dispatch: playback scheduling, interruption and turn completion\<close>

text \<open>
  The payload \<open>inlineData.data\<close> of a message, by what \<open>decodeAudioData\<close> makes of it:
  a buffer of some duration, or an exception. (The helper lives in
  \<open>services/audioUtils\<close>; only the duration of its result is used here.)
\<close>

datatype audio_payload = Decodes real | DecodeFails

text \<open>
  The parts of \<open>msg.serverContent\<close> the handler looks at. \<open>inlineData = None\<close> is an
  absent or empty payload; a transcription is given by the text that \<open>+=\<close> appends.
\<close>

record server_message =
  inlineData :: "audio_payload option"
  interrupted :: bool
  inputTranscription :: "js_string option"
  outputTranscription :: "js_string option"
  turnComplete :: bool

text \<open>
  What the handler reads from outside during one invocation: \<open>ctx.currentTime\<close>, the two
  calls of \<open>Date.now()\<close> of the turn-complete branch, and which outside calls throw.
\<close>

record message_env =
  clockNow :: real
  userTimestamp :: int
  modelTimestamp :: int
  throwing :: "effect \<Rightarrow> bool"

text \<open>The body of the audio branch, lines 337 to 357.\<close>

definition schedule_audio :: "real \<Rightarrow> audio_payload \<Rightarrow> session_state \<Rightarrow> handler_result" where
  "schedule_audio clock payload s =
     (let s1 = s\<lparr>isSpeaking := True, nextStartTimeRef := max (nextStartTimeRef s) clock\<rparr> in
      case payload of
        DecodeFails \<Rightarrow> Threw s1
      | Decodes d \<Rightarrow>
          (let currentRate = speechRateRef s1 * outputPitchRef s1;
               source = \<lparr>duration = d, startTime = nextStartTimeRef s1, playbackRate = currentRate\<rparr>
           in Returned (s1\<lparr>nextStartTimeRef := nextStartTimeRef s1 + d / currentRate,
                            sourcesRef := sourcesRef s1 @ [source]\<rparr>)))"

definition audio_branch :: "message_env \<Rightarrow> server_message \<Rightarrow> session_state \<Rightarrow> handler_result" where
  "audio_branch env m s =
     (case inlineData m of
        None \<Rightarrow> Returned s
      | Some payload \<Rightarrow>
          (if audioContextOutRef s \<and> \<not> isPausedRef s \<and> outputGainNodeRef s
           then schedule_audio (clockNow env) payload s
           else Returned s))"

text \<open>Lines 360 to 365.\<close>

definition interrupted_branch :: "message_env \<Rightarrow> server_message \<Rightarrow> session_state \<Rightarrow> session_state" where
  "interrupted_branch env m s =
     (if interrupted m
      then (stop_all (throwing env) (sourcesRef s) s)
             \<lparr>sourcesRef := [], nextStartTimeRef := 0, isSpeaking := False\<rparr>
      else s)"

text \<open>Lines 367 to 372.\<close>

definition transcription_branch :: "server_message \<Rightarrow> session_state \<Rightarrow> session_state" where
  "transcription_branch m s =
     (let s1 = (case inputTranscription m of
                  None \<Rightarrow> s
                | Some t \<Rightarrow> s\<lparr>transcriptionRef :=
                      (transcriptionRef s)\<lparr>inputText := inputText (transcriptionRef s) @ t\<rparr>\<rparr>)
      in case outputTranscription m of
           None \<Rightarrow> s1
         | Some t \<Rightarrow> s1\<lparr>transcriptionRef :=
               (transcriptionRef s1)\<lparr>outputText := outputText (transcriptionRef s1) @ t\<rparr>\<rparr>)"

text \<open>Lines 373 to 385.\<close>

definition turnComplete_branch :: "message_env \<Rightarrow> server_message \<Rightarrow> session_state \<Rightarrow> session_state" where
  "turnComplete_branch env m s =
     (if turnComplete m then
        (let inp = inputText (transcriptionRef s);
             out = outputText (transcriptionRef s);
             ts = userTimestamp env;
             s1 = (if js_trim inp \<noteq> []
                   then fire_and_forget (CheckGrammar (js_trim inp) ts)
                          (fire_and_forget (EvaluateChallengeResponse (js_trim inp))
                             (s\<lparr>entries := entries s @
                                  [\<lparr>role = User, etext = inp, timestamp = ts, correction = None\<rparr>]\<rparr>))
                   else s);
             s2 = (if js_trim out \<noteq> []
                   then s1\<lparr>entries := entries s1 @
                          [\<lparr>role = Model, etext = out, timestamp = modelTimestamp env,
                            correction = None\<rparr>]\<rparr>
                   else s1)
         in s2\<lparr>transcriptionRef := \<lparr>inputText = [], outputText = []\<rparr>\<rparr>)
      else s)"

text \<open>The \<open>onmessage\<close> callback, lines 334 to 386.\<close>

definition onmessage :: "message_env \<Rightarrow> server_message \<Rightarrow> session_state \<Rightarrow> handler_result" where
  "onmessage env m s =
     (case audio_branch env m s of
        Threw s' \<Rightarrow> Threw s'
      | Returned s1 \<Rightarrow>
          Returned (turnComplete_branch env m
                     (transcription_branch m (interrupted_branch env m s1))))"

text \<open>
  Buffers handled one after the other: each pair is the output-clock time at which a
  message carrying only audio is handled, and the duration its payload decodes to.
\<close>

definition audio_message :: "real \<Rightarrow> server_message" where
  "audio_message d =
     \<lparr>inlineData = Some (Decodes d), interrupted = False, inputTranscription = None,
      outputTranscription = None, turnComplete = False\<rparr>"

definition audio_env :: "real \<Rightarrow> message_env" where
  "audio_env c = \<lparr>clockNow = c, userTimestamp = 0, modelTimestamp = 0, throwing = (\<lambda>_. False)\<rparr>"





section \<open>Auxiliary definitions and concrete inputs\<close>

text \<open>The outside calls \<open>cleanup\<close> makes from a given state, in order.\<close>

definition cleanup_calls :: "session_state \<Rightarrow> effect list" where
  "cleanup_calls s =
     (if sessionRef s then [SessionClose] else []) @
     (if audioContextInRef s then [AudioContextInClose] else []) @
     (if audioContextOutRef s then [AudioContextOutClose] else []) @
     map SourceStop (sourcesRef s)"


text \<open>A live session in the middle of a turn, with one buffer playing and the user talking.\<close>

definition sample_session :: session_state where
  "sample_session =
     \<lparr>sessionRef = True, audioContextInRef = True, audioContextOutRef = True,
      outputGainNodeRef = True, isPausedRef = False, speechRateRef = 1, outputPitchRef = 1,
      nextStartTimeRef = 5, sourcesRef = [\<lparr>duration = 2, startTime = 3, playbackRate = 1\<rparr>],
      transcriptionRef = \<lparr>inputText = js ''hi'', outputText = js ''ok''\<rparr>,
      vadRef = \<lparr>wasUserTalking = True, lastSilenceTime = 1000\<rparr>, entries = [],
      isActive = True, isConnecting = False, isSpeaking = True, isUserTalkingLocal = True,
      error = None, effects = []\<rparr>"

text \<open>Frames of one or two samples: a loud one, the same under gain 2, and a silent one.\<close>

definition loud_frame :: capture_env where
  "loud_frame = \<lparr>isPausedNow = False, sessionPresent = True, inputData = [1], currentGain = 1,
     now = 2000, currentThreshold = 0.008, currentDuration = 800\<rparr>"

definition gained_frame :: capture_env where
  "gained_frame = \<lparr>isPausedNow = False, sessionPresent = True, inputData = [1, 1], currentGain = 2,
     now = 1000, currentThreshold = 0.008, currentDuration = 800\<rparr>"

text \<open>
  One sample 0.5 under the gain slider at 0.1 and the threshold at 0.05, each the double
  nearest to the decimal.
\<close>

definition tenth_gain_frame :: capture_env where
  "tenth_gain_frame =
     \<lparr>isPausedNow = False, sessionPresent = True, inputData = [1 / 2],
      currentGain = 3602879701896397 / 36028797018963968, now = 1000,
      currentThreshold = 3602879701896397 / 72057594037927936, currentDuration = 800\<rparr>"

definition silent_frame :: capture_env where
  "silent_frame = \<lparr>isPausedNow = False, sessionPresent = True, inputData = [0], currentGain = 1,
     now = 2900, currentThreshold = 0.008, currentDuration = 800\<rparr>"








definition sample_entries :: "transcription_entry list" where
  "sample_entries =
     [\<lparr>role = User, etext = js ''hi there'', timestamp = 1700, correction = None\<rparr>,
      \<lparr>role = Model, etext = js ''ok'', timestamp = 1701, correction = None\<rparr>]"

definition sample_correction :: grammar_outcome where
  "sample_correction = Parsed (Some (js ''CORRECTION'')) (Some (js ''Hi there''))"

section \<open>Rounding\<close>

text \<open>The exponent search computes the integer part of the binary logarithm.\<close>

lemma exponent_up_log: "1 \<le> x \<Longrightarrow> exponent_up x = \<lfloor>log 2 x\<rfloor>"
proof (induction x rule: exponent_up.induct)
  case (1 x)
  show ?case
  proof (cases "x < 2")
    case True
    with "1.prems" have "0 \<le> log 2 x" "log 2 x < 1" by (simp_all add: less_log_iff log_less_iff)
    then have "\<lfloor>log 2 x\<rfloor> = 0" by linarith
    with True show ?thesis by (subst exponent_up.simps) simp
  next
    case False
    then have h: "1 \<le> x / 2" by simp
    have "log 2 (x / 2) = log 2 x - 1" using False by (simp add: log_divide)
    with "1.IH" [OF False h] have "exponent_up (x / 2) = \<lfloor>log 2 x\<rfloor> - 1" by simp
    with False show ?thesis by (subst exponent_up.simps) simp
  qed
qed

lemma exponent_down_log: "0 < x \<Longrightarrow> x < 1 \<Longrightarrow> exponent_down x = \<lfloor>log 2 x\<rfloor>"
proof (induction x rule: exponent_down.induct)
  case (1 x)
  show ?case
  proof (cases "1 / 2 \<le> x")
    case True
    have "log 2 (1 / 2) \<le> log 2 x" using True "1.prems" by (subst log_le_cancel_iff) simp_all
    moreover have "log 2 (1 / 2) = - 1" by (simp add: log_divide)
    moreover have "log 2 x < 0" using "1.prems" by simp
    ultimately have "\<lfloor>log 2 x\<rfloor> = - 1" by linarith
    with True show ?thesis by (subst exponent_down.simps) simp
  next
    case False
    with "1.prems" have c: "\<not> (x \<le> 0 \<or> 1 / 2 \<le> x)" and h: "0 < 2 * x" "2 * x < 1" by simp_all
    have "log 2 (2 * x) = 1 + log 2 x" using "1.prems" by (simp add: log_mult)
    with "1.IH" [OF c h] have "exponent_down (2 * x) = \<lfloor>log 2 x\<rfloor> + 1" by simp
    with c show ?thesis by (subst exponent_down.simps) simp
  qed
qed

lemma binary_exponent_log: "x \<noteq> 0 \<Longrightarrow> binary_exponent x = \<lfloor>log 2 \<bar>x\<bar>\<rfloor>"
  by (simp add: binary_exponent_def exponent_up_log exponent_down_log)

lemmas rounding_eval =
  to_float32_def to_float64_def binary_round_def binary_exponent_def round_half_even_def
  pow2_def exponent_up.simps exponent_down.simps ieee_arith_def Let_def

section \<open>Gain and energy\<close>

lemma gain_loop_fst:
  "fst (gain_loop ar g xs a) = map (\<lambda>x. f32 ar (f64 ar (x * g))) xs"
  by (induction xs arbitrary: a) (simp_all add: Let_def)

lemma gain_loop_snd:
  "snd (gain_loop ar g xs a) = sum_squares ar (map (\<lambda>x. f32 ar (f64 ar (x * g))) xs) a"
  by (induction xs arbitrary: a) (simp_all add: Let_def)

lemma measured_rms_buffer:
  "measured_rms ar g xs = buffer_rms ar (map (\<lambda>x. f32 ar (f64 ar (x * g))) xs)"
  by (simp add: measured_rms_def buffer_rms_def gain_loop_snd)

lemma sum_squares_exact: "sum_squares exact_arith ys a = a + (\<Sum>y\<leftarrow>ys. y * y)"
  by (induction ys arbitrary: a) (simp_all add: exact_arith_def)

lemma buffer_rms_exact: "buffer_rms exact_arith ys = frame_rms ys"
  unfolding buffer_rms_def sum_squares_exact
  by (simp add: frame_rms_def js_rms_def exact_arith_def)

lemma sum_squares_scaled:
  "(\<Sum>x\<leftarrow>xs. x * g * (x * g)) = g * g * (\<Sum>x\<leftarrow>xs. x * x)" for g :: real
  by (induction xs) (simp_all add: algebra_simps)

lemma sqrt_scaled:
  assumes "0 < g"
  shows "sqrt (g * g * a / b) = g * sqrt (a / b)"
proof -
  have "g * g * a / b = g\<^sup>2 * (a / b)"
    by (simp add: power2_eq_square)
  then have "sqrt (g * g * a / b) = sqrt (g\<^sup>2) * sqrt (a / b)"
    by (simp only: real_sqrt_mult)
  also have "sqrt (g\<^sup>2) = g"
    using assms by simp
  finally show ?thesis .
qed

lemma measured_rms_scaled:
  assumes "0 < g"
  shows "measured_rms exact_arith g xs = map_option (\<lambda>r. g * r) (frame_rms xs)"
proof -
  have eq: "map (\<lambda>x. f32 exact_arith (f64 exact_arith (x * g))) xs = map (\<lambda>x. x * g) xs"
    by (simp add: exact_arith_def)
  have "measured_rms exact_arith g xs = frame_rms (map (\<lambda>x. x * g) xs)"
    unfolding measured_rms_buffer buffer_rms_exact eq ..
  also have "\<dots> = map_option (\<lambda>r. g * r) (frame_rms xs)"
    using sqrt_scaled [OF assms]
    by (simp add: frame_rms_def o_def sum_squares_scaled)
  finally show ?thesis .
qed

text \<open>
  C7. A callback invocation that passes its guard stores, for every sample, the product
  of the sample and the gain as the frame holds it (the double product rounded to
  float32), before the energy is measured and before the frame is handed to the encoder:
  the energy is computed from the stored samples, the VAD step is decided from it, and the
  same samples are sent. In exact arithmetic, for a gain above zero and a frame with
  samples, the stored samples are the products themselves and the measured energy is the
  gain times the energy of the frame as it arrived.
\<close>

theorem gain_linearity:
  assumes "\<not> isPausedNow env" and "sessionPresent env"
  shows "\<exists>r. onaudioprocess ar env s = Some r
       \<and> buffer r = map (\<lambda>x. f32 ar (f64 ar (x * currentGain env))) (inputData env)
       \<and> sent r = buffer r
       \<and> measured r = buffer_rms ar (buffer r)
       \<and> (vadAfter r, event r) =
           vad_step (exceeds (buffer_rms ar (buffer r)) (currentThreshold env))
             (now env) (currentDuration env) s
       \<and> (ar = exact_arith \<and> 0 < currentGain env \<and> inputData env \<noteq> [] \<longrightarrow>
            buffer r = map (\<lambda>x. x * currentGain env) (inputData env)
          \<and> (\<exists>r0. frame_rms (inputData env) = Some r0
                  \<and> measured r = Some (currentGain env * r0)))"
proof -
  let ?g = "currentGain env" and ?xs = "inputData env"
  let ?ys = "map (\<lambda>x. f32 ar (f64 ar (x * ?g))) ?xs"
  let ?step = "vad_step (exceeds (measured_rms ar ?g ?xs) (currentThreshold env))
                 (now env) (currentDuration env) s"
  let ?r = "\<lparr>buffer = ?ys, measured = measured_rms ar ?g ?xs, vadAfter = fst ?step,
             event = snd ?step, sent = ?ys\<rparr>"
  have r: "onaudioprocess ar env s = Some ?r"
    using assms by (simp add: onaudioprocess_def Let_def gain_loop_fst)
  have m: "measured_rms ar ?g ?xs = buffer_rms ar ?ys"
    by (rule measured_rms_buffer)
  have lin: "?ys = map (\<lambda>x. x * ?g) ?xs
          \<and> (\<exists>r0. frame_rms ?xs = Some r0 \<and> measured_rms ar ?g ?xs = Some (?g * r0))"
    if ex: "ar = exact_arith" and g: "0 < ?g" and ne: "?xs \<noteq> []"
  proof -
    obtain r0 where r0: "frame_rms ?xs = Some r0"
      using ne by (simp add: frame_rms_def)
    have "measured_rms ar ?g ?xs = Some (?g * r0)"
      using measured_rms_scaled [OF g, of ?xs] r0 ex by simp
    with r0 ex show ?thesis by (simp add: exact_arith_def)
  qed
  show ?thesis
    by (rule exI [of _ ?r]) (use r m lin in simp)
qed

theorem gain_linearity_witness:
  "\<not> isPausedNow gained_frame \<and> sessionPresent gained_frame
 \<and> 0 < currentGain gained_frame \<and> inputData gained_frame \<noteq> []
 \<and> onaudioprocess exact_arith gained_frame initial_vad =
      Some \<lparr>buffer = [2, 2], measured = Some 2,
            vadAfter = \<lparr>wasUserTalking = True, lastSilenceTime = 1000\<rparr>,
            event = Some SpeechStart, sent = [2, 2]\<rparr>
 \<and> frame_rms (inputData gained_frame) = Some 1
 \<and> buffer_rms exact_arith [2, 2] = Some (currentGain gained_frame * 1)"
proof -
  let ?r = "\<lparr>buffer = [2, 2], measured = Some 2,
            vadAfter = \<lparr>wasUserTalking = True, lastSilenceTime = 1000\<rparr>,
            event = Some SpeechStart, sent = [2, 2]\<rparr>"
  have h1: "\<not> isPausedNow gained_frame" and h2: "sessionPresent gained_frame"
    by (simp_all add: gained_frame_def)
  have h3: "0 < currentGain gained_frame" "inputData gained_frame \<noteq> []"
    by (simp_all add: gained_frame_def)
  have h4: "onaudioprocess exact_arith gained_frame initial_vad = Some ?r"
    by (simp add: onaudioprocess_def gained_frame_def initial_vad_def measured_rms_def
        js_rms_def vad_step_def exceeds_def exact_arith_def Let_def)
  have h5: "frame_rms (inputData gained_frame) = Some 1"
    by (simp add: frame_rms_def gained_frame_def)
  from gain_linearity [OF h1 h2, of exact_arith initial_vad] h3 h4 h5
  have "buffer_rms exact_arith [2, 2] = Some (currentGain gained_frame * 1)" by auto
  with h1 h2 h3 h4 h5 show ?thesis by simp
qed

text \<open>
  On the arithmetic of the code the measured energy is not the gain times the energy of
  the frame: for the sample 0.5 under gain 0.1 the stored sample and the measured energy
  are \<open>13421773 / 2 ^ 28\<close> (0.05000000074505806), the energy of the arriving frame is 0.5,
  and the gain times 0.5 is the threshold 0.05 itself, which the measure exceeds, so that
  the frame signals speech-start.
\<close>

theorem gain_linearity_counterexample:
  "\<not> isPausedNow tenth_gain_frame \<and> sessionPresent tenth_gain_frame
 \<and> 0 < currentGain tenth_gain_frame \<and> inputData tenth_gain_frame = [1 / 2]
 \<and> onaudioprocess ieee_arith tenth_gain_frame initial_vad =
      Some \<lparr>buffer = [13421773 / 268435456], measured = Some (13421773 / 268435456),
            vadAfter = \<lparr>wasUserTalking = True, lastSilenceTime = 1000\<rparr>,
            event = Some SpeechStart, sent = [13421773 / 268435456]\<rparr>
 \<and> buffer_rms ieee_arith (inputData tenth_gain_frame) = Some (1 / 2)
 \<and> frame_rms (inputData tenth_gain_frame) = Some (1 / 2)
 \<and> currentGain tenth_gain_frame * (1 / 2) = currentThreshold tenth_gain_frame
 \<and> to_float64 (currentGain tenth_gain_frame * (1 / 2)) = currentThreshold tenth_gain_frame
 \<and> (13421773 / 268435456 :: real) \<noteq> currentGain tenth_gain_frame * (1 / 2)"
proof -
  have y: "to_float32 (to_float64 (3602879701896397 / 72057594037927936)) = 13421773 / 268435456"
    by (simp add: rounding_eval)
  have sq: "to_float64 (13421773 / 268435456 * (13421773 / 268435456))
              = 180143990463529 / 72057594037927936"
    by (simp add: rounding_eval)
  have acc: "to_float64 (180143990463529 / 72057594037927936)
              = 180143990463529 / 72057594037927936"
    by (simp add: rounding_eval)
  have root: "sqrt (180143990463529 / 72057594037927936) = 13421773 / 268435456"
    by (rule real_sqrt_unique) (simp_all add: power2_eq_square)
  have res: "to_float64 (13421773 / 268435456) = 13421773 / 268435456"
    by (simp add: rounding_eval)
  have run: "onaudioprocess ieee_arith tenth_gain_frame initial_vad =
      Some \<lparr>buffer = [13421773 / 268435456], measured = Some (13421773 / 268435456),
            vadAfter = \<lparr>wasUserTalking = True, lastSilenceTime = 1000\<rparr>,
            event = Some SpeechStart, sent = [13421773 / 268435456]\<rparr>"
    unfolding onaudioprocess_def tenth_gain_frame_def
    by (simp add: Let_def measured_rms_def js_rms_def ieee_arith_def y sq acc root res
        vad_step_def exceeds_def initial_vad_def)
  have q: "to_float64 (1 / 4) = 1 / 4" "to_float64 (1 / 2) = 1 / 2"
    by (simp_all add: rounding_eval)
  have half: "sqrt (1 / 4) = 1 / 2"
    by (rule real_sqrt_unique) (simp_all add: power2_eq_square)
  have orig: "buffer_rms ieee_arith [1 / 2] = Some (1 / 2)"
    by (simp add: buffer_rms_def js_rms_def ieee_arith_def q half)
  have orig': "frame_rms [1 / 2 :: real] = Some (1 / 2)"
    using half by (simp add: frame_rms_def)
  have thr: "to_float64 (3602879701896397 / 72057594037927936) = 3602879701896397 / 72057594037927936"
    by (simp add: rounding_eval)
  show ?thesis
    using run orig orig' thr by (simp add: tenth_gain_frame_def)
qed

section \<open>Voice activity detection\<close>

lemma onaudioprocess_cases:
  assumes "onaudioprocess ar e s = Some r"
  shows "(event r = None \<and> wasUserTalking (vadAfter r) = wasUserTalking s)
       \<or> (event r = Some SpeechStart \<and> \<not> wasUserTalking s \<and> wasUserTalking (vadAfter r))
       \<or> (event r = Some SpeechStop \<and> wasUserTalking s \<and> \<not> wasUserTalking (vadAfter r))"
  using assms by (auto simp: onaudioprocess_def vad_step_def Let_def split: if_splits)

lemma onaudioprocess_stop:
  assumes "onaudioprocess ar e s = Some r" and "event r = Some SpeechStop"
  shows "is_processed e \<and> \<not> is_loud ar e \<and> wasUserTalking s
       \<and> now e - lastSilenceTime s > currentDuration e"
  using assms
  by (auto simp: onaudioprocess_def vad_step_def is_processed_def is_loud_def Let_def
      split: if_splits)

lemma onaudioprocess_talking_after:
  assumes "onaudioprocess ar e s = Some r" and "wasUserTalking (vadAfter r)"
  shows "(is_loud ar e \<and> lastSilenceTime (vadAfter r) = now e)
       \<or> (\<not> is_loud ar e \<and> wasUserTalking s \<and> lastSilenceTime (vadAfter r) = lastSilenceTime s)"
  using assms
  by (auto simp: onaudioprocess_def vad_step_def is_loud_def Let_def split: if_splits)

lemma onaudioprocess_skipped: "onaudioprocess ar e s = None \<Longrightarrow> \<not> is_loud ar e"
  by (auto simp: onaudioprocess_def is_loud_def Let_def split: if_splits)

lemma alternates_from_state:
  "alternates (if wasUserTalking s then SpeechStop else SpeechStart) (emitted (vad_trace ar s fs))"
proof (induction fs arbitrary: s)
  case Nil
  show ?case by simp
next
  case (Cons e es)
  show ?case
  proof (cases "onaudioprocess ar e s")
    case None
    then show ?thesis using Cons.IH [of s] by simp
  next
    case (Some r)
    from onaudioprocess_cases [OF Some] Cons.IH [of "vadAfter r"] Some
    show ?thesis by (auto split: if_splits)
  qed
qed

lemma length_vad_trace: "length (vad_trace ar s fs) = length fs"
  by (induction fs arbitrary: s) (simp_all split: option.splits)

lemma vad_run_snoc:
  "vad_run ar s (fs @ [e]) =
     (case onaudioprocess ar e (vad_run ar s fs) of None \<Rightarrow> vad_run ar s fs | Some r \<Rightarrow> vadAfter r)"
  by (induction fs arbitrary: s) (simp_all split: option.splits)

lemma vad_trace_nth:
  "i < length fs \<Longrightarrow>
   vad_trace ar s fs ! i =
     (case onaudioprocess ar (fs ! i) (vad_run ar s (take i fs)) of None \<Rightarrow> None | Some r \<Rightarrow> event r)"
proof (induction fs arbitrary: s i)
  case Nil
  then show ?case by simp
next
  case (Cons e es)
  show ?case
  proof (cases i)
    case 0
    then show ?thesis by (simp split: option.splits)
  next
    case (Suc k)
    with Cons.prems have "k < length es" by simp
    from Cons.IH [OF this] Suc show ?thesis by (simp split: option.splits)
  qed
qed

lemma talking_since_last_loud:
  assumes "\<not> wasUserTalking s0" and "wasUserTalking (vad_run ar s0 fs)"
  shows "\<exists>j<length fs. is_loud ar (fs ! j) \<and> (\<forall>k. j < k \<and> k < length fs \<longrightarrow> \<not> is_loud ar (fs ! k))
           \<and> lastSilenceTime (vad_run ar s0 fs) = now (fs ! j)"
  using assms(2)
proof (induction fs rule: rev_induct)
  case Nil
  with assms(1) show ?case by simp
next
  case (snoc e fs)
  let ?s = "vad_run ar s0 fs"
  show ?case
  proof (cases "onaudioprocess ar e ?s")
    case None
    with snoc.prems have "wasUserTalking ?s" by (simp add: vad_run_snoc)
    from snoc.IH [OF this] obtain j where j: "j < length fs" "is_loud ar (fs ! j)"
      "\<forall>k. j < k \<and> k < length fs \<longrightarrow> \<not> is_loud ar (fs ! k)" "lastSilenceTime ?s = now (fs ! j)"
      by blast
    have quiet: "\<not> is_loud ar e" using onaudioprocess_skipped [OF None] .
    have "\<forall>k. j < k \<and> k < length (fs @ [e]) \<longrightarrow> \<not> is_loud ar ((fs @ [e]) ! k)"
      using j(3) quiet by (auto simp: nth_append)
    moreover have "lastSilenceTime (vad_run ar s0 (fs @ [e])) = now ((fs @ [e]) ! j)"
      using j(1,4) None by (simp add: vad_run_snoc nth_append)
    moreover have "is_loud ar ((fs @ [e]) ! j)" using j(1,2) by (simp add: nth_append)
    ultimately show ?thesis using j(1) by (intro exI [of _ j]) simp
  next
    case (Some r)
    with snoc.prems have after: "wasUserTalking (vadAfter r)" by (simp add: vad_run_snoc)
    have run: "vad_run ar s0 (fs @ [e]) = vadAfter r" using Some by (simp add: vad_run_snoc)
    from onaudioprocess_talking_after [OF Some after] show ?thesis
    proof
      assume loud: "is_loud ar e \<and> lastSilenceTime (vadAfter r) = now e"
      then show ?thesis
        by (intro exI [of _ "length fs"]) (auto simp: run)
    next
      assume q: "\<not> is_loud ar e \<and> wasUserTalking ?s \<and> lastSilenceTime (vadAfter r) = lastSilenceTime ?s"
      from snoc.IH q obtain j where j: "j < length fs" "is_loud ar (fs ! j)"
        "\<forall>k. j < k \<and> k < length fs \<longrightarrow> \<not> is_loud ar (fs ! k)" "lastSilenceTime ?s = now (fs ! j)"
        by blast
      have "\<forall>k. j < k \<and> k < length (fs @ [e]) \<longrightarrow> \<not> is_loud ar ((fs @ [e]) ! k)"
        using j(3) q by (auto simp: nth_append)
      moreover have "lastSilenceTime (vad_run ar s0 (fs @ [e])) = now ((fs @ [e]) ! j)"
        using j(1,4) q by (simp add: run nth_append)
      moreover have "is_loud ar ((fs @ [e]) ! j)" using j(1,2) by (simp add: nth_append)
      ultimately show ?thesis using j(1) by (intro exI [of _ j]) simp
    qed
  qed
qed

lemma quiet_frame_level:
  assumes "is_processed e" and "\<not> is_loud ar e" and "inputData e \<noteq> []"
  shows "\<exists>v. measured_rms ar (currentGain e) (inputData e) = Some v \<and> v \<le> currentThreshold e"
  using assms
  by (auto simp: is_processed_def is_loud_def exceeds_def measured_rms_def js_rms_def)

text \<open>
  C1. Starting from the Silent state, over any sequence of invocations of the capture
  callback and whatever the rounding of its arithmetic, the emitted events alternate, beginning with speech-start; and a speech-stop is
  emitted only at a processed frame that is not above the threshold (its energy, when the
  frame has samples, is at most the threshold) and that comes more than the hangover
  duration after the last frame that was above the threshold.
\<close>

theorem vad_hysteresis:
  assumes "\<not> wasUserTalking s0"
  shows "alternates SpeechStart (emitted (vad_trace ar s0 fs))
       \<and> (\<forall>i<length fs. vad_trace ar s0 fs ! i = Some SpeechStop \<longrightarrow>
            is_processed (fs ! i) \<and> \<not> is_loud ar (fs ! i)
          \<and> (inputData (fs ! i) \<noteq> [] \<longrightarrow>
               (\<exists>v. measured_rms ar (currentGain (fs ! i)) (inputData (fs ! i)) = Some v
                    \<and> v \<le> currentThreshold (fs ! i)))
          \<and> (\<exists>j<i. is_loud ar (fs ! j) \<and> (\<forall>k. j < k \<and> k < i \<longrightarrow> \<not> is_loud ar (fs ! k))
                    \<and> now (fs ! i) - now (fs ! j) > currentDuration (fs ! i)))"
proof (intro conjI allI impI)
  show "alternates SpeechStart (emitted (vad_trace ar s0 fs))"
    using alternates_from_state [of s0 ar fs] assms by simp
next
  fix i assume i: "i < length fs" and stop: "vad_trace ar s0 fs ! i = Some SpeechStop"
  let ?s = "vad_run ar s0 (take i fs)"
  from stop vad_trace_nth [OF i, of ar s0] obtain r where
    r: "onaudioprocess ar (fs ! i) ?s = Some r" "event r = Some SpeechStop"
    by (auto split: option.splits)
  from onaudioprocess_stop [OF r] have st: "is_processed (fs ! i)" "\<not> is_loud ar (fs ! i)"
    "wasUserTalking ?s" "now (fs ! i) - lastSilenceTime ?s > currentDuration (fs ! i)"
    by simp_all
  show "is_processed (fs ! i)" by fact
  show "\<not> is_loud ar (fs ! i)" by fact
  show "\<exists>v. measured_rms ar (currentGain (fs ! i)) (inputData (fs ! i)) = Some v
                    \<and> v \<le> currentThreshold (fs ! i)" if "inputData (fs ! i) \<noteq> []"
    using quiet_frame_level [OF st(1,2) that] .
  from talking_since_last_loud [OF assms st(3)] i obtain j where
    j: "j < i" "is_loud ar (take i fs ! j)"
       "\<forall>k. j < k \<and> k < length (take i fs) \<longrightarrow> \<not> is_loud ar (take i fs ! k)"
       "lastSilenceTime ?s = now (take i fs ! j)"
    by auto
  have "\<forall>k. j < k \<and> k < i \<longrightarrow> \<not> is_loud ar (fs ! k)"
    using j(3) i by auto
  moreover have "is_loud ar (fs ! j)" using j(1,2) by simp
  moreover have "now (fs ! i) - now (fs ! j) > currentDuration (fs ! i)"
    using st(4) j(1,4) by simp
  ultimately show "\<exists>j<i. is_loud ar (fs ! j) \<and> (\<forall>k. j < k \<and> k < i \<longrightarrow> \<not> is_loud ar (fs ! k))
                    \<and> now (fs ! i) - now (fs ! j) > currentDuration (fs ! i)"
    using j(1) by blast
qed


theorem vad_hysteresis_witness:
  "\<not> wasUserTalking initial_vad
 \<and> vad_trace ieee_arith initial_vad [loud_frame, silent_frame] = [Some SpeechStart, Some SpeechStop]
 \<and> alternates SpeechStart (emitted (vad_trace ieee_arith initial_vad [loud_frame, silent_frame]))
 \<and> \<not> is_loud ieee_arith silent_frame
 \<and> (\<exists>j<1. is_loud ieee_arith ([loud_frame, silent_frame] ! j)
        \<and> now silent_frame - now ([loud_frame, silent_frame] ! j) > currentDuration silent_frame)"
proof -
  let ?fs = "[loud_frame, silent_frame]"
  have h0: "\<not> wasUserTalking initial_vad" by (simp add: initial_vad_def)
  have one: "to_float64 1 = 1" "to_float32 1 = 1" by (simp_all add: rounding_eval)
  have zero: "to_float64 0 = 0" "to_float32 0 = 0"
    by (simp_all add: to_float64_def to_float32_def binary_round_def)
  have tr: "vad_trace ieee_arith initial_vad ?fs = [Some SpeechStart, Some SpeechStop]"
    by (simp add: onaudioprocess_def loud_frame_def silent_frame_def initial_vad_def
        measured_rms_def js_rms_def vad_step_def exceeds_def ieee_arith_def Let_def one zero)
  have stop: "(1::nat) < length ?fs \<and> vad_trace ieee_arith initial_vad ?fs ! 1 = Some SpeechStop"
    unfolding tr by simp
  from vad_hysteresis [OF h0, of ieee_arith ?fs] stop
  have "alternates SpeechStart (emitted (vad_trace ieee_arith initial_vad ?fs))"
    and "\<not> is_loud ieee_arith (?fs ! 1)"
    and "\<exists>j<1. is_loud ieee_arith (?fs ! j) \<and> (\<forall>k. j < k \<and> k < 1 \<longrightarrow> \<not> is_loud ieee_arith (?fs ! k))
           \<and> now (?fs ! 1) - now (?fs ! j) > currentDuration (?fs ! 1)"
    by blast+
  with h0 tr show ?thesis by auto
qed

section \<open>Teardown and session start\<close>

lemma catch_perform [simp]:
  "catch_ignore (perform throws e s) = s\<lparr>effects := effects s @ [e]\<rparr>"
  by (simp add: catch_ignore_def perform_def Let_def)

lemma stop_all_eq:
  "stop_all throws srcs s = s\<lparr>effects := effects s @ map SourceStop srcs\<rparr>"
  by (induction srcs arbitrary: s) simp_all

lemma cleanup_eq:
  "cleanup throws s =
     Returned (s\<lparr>sessionRef := False, audioContextInRef := False, audioContextOutRef := False,
                 outputGainNodeRef := False, sourcesRef := [], isActive := False,
                 isUserTalkingLocal := False, isSpeaking := False,
                 effects := effects s @ cleanup_calls s\<rparr>)"
  by (simp add: cleanup_def cleanup_calls_def stop_all_eq Let_def)

text \<open>
  C5. Teardown is idempotent: from every session state, and whichever outside calls throw,
  a first teardown returns, a second one returns as well and leaves the state the first
  one produced, and no playback source is left in the active set (each one has been
  stopped and the stream closed).
\<close>

theorem teardown_idempotent:
  "\<exists>s1. cleanup throws s = Returned s1 \<and> cleanup throws' s1 = Returned s1 \<and> sourcesRef s1 = []
        \<and> \<not> sessionRef s1 \<and> (\<forall>src \<in> set (sourcesRef s). SourceStop src \<in> set (effects s1))"
  by (simp add: cleanup_eq cleanup_calls_def)

lemma cleanup_keeps:
  "cleanup throws s = Returned s' \<Longrightarrow>
     nextStartTimeRef s' = nextStartTimeRef s \<and> transcriptionRef s' = transcriptionRef s
   \<and> vadRef s' = vadRef s"
  by (auto simp: cleanup_eq)

lemma startSession_keeps:
  "vadRef (state_of (startSession throws outcome s)) = vadRef s
 \<and> nextStartTimeRef (state_of (startSession throws outcome s)) = nextStartTimeRef s
 \<and> transcriptionRef (state_of (startSession throws outcome s)) = transcriptionRef s"
  by (cases outcome; cases "case outcome of Fails st m \<Rightarrow> st | _ \<Rightarrow> BeforeSession")
     (simp_all add: startSession_def cleanup_eq state_of_def Let_def)

text \<open>
  C6 at a concrete session: teardown closes the stream and clears the sources, and leaves
  \<open>nextStartTimeRef\<close> at 5 and the two accumulators at their texts, none of which is the
  initial value. A session started afterwards, whose output clock begins at 0, schedules
  its first buffer at 5.
\<close>

theorem teardown_keeps_schedule_example:
  "cleanup (\<lambda>_. False) sample_session = Returned (state_of (cleanup (\<lambda>_. False) sample_session))
 \<and> sourcesRef (state_of (cleanup (\<lambda>_. False) sample_session)) = []
 \<and> \<not> sessionRef (state_of (cleanup (\<lambda>_. False) sample_session))
 \<and> nextStartTimeRef (state_of (cleanup (\<lambda>_. False) sample_session)) = 5
 \<and> nextStartTimeRef (state_of (cleanup (\<lambda>_. False) sample_session)) \<noteq> initial_nextStartTime
 \<and> transcriptionRef (state_of (cleanup (\<lambda>_. False) sample_session)) = \<lparr>inputText = js ''hi'', outputText = js ''ok''\<rparr>
 \<and> transcriptionRef (state_of (cleanup (\<lambda>_. False) sample_session)) \<noteq> initial_transcription
 \<and> sourcesRef (state_of (onmessage (audio_env 0) (audio_message 1)
       (state_of (startSession (\<lambda>_. False) Connects
          (state_of (cleanup (\<lambda>_. False) sample_session))))))
     = [\<lparr>duration = 1, startTime = 5, playbackRate = 1\<rparr>]"
  by (simp add: cleanup_eq cleanup_calls_def startSession_def state_of_def sample_session_def
      initial_nextStartTime_def initial_transcription_def js_def onmessage_def audio_branch_def
      schedule_audio_def interrupted_branch_def transcription_branch_def turnComplete_branch_def
      audio_env_def audio_message_def Let_def)

text \<open>
  C9 at a concrete session: a session start that connects leaves the VAD refs of the
  previous session (talking, last loud frame at 1000), although the indicator shown to the
  user has been cleared; the first loud frame of the new session then signals no
  speech-start.
\<close>

theorem start_keeps_vad_example:
  "startSession (\<lambda>_. False) Connects sample_session
     = Returned (state_of (startSession (\<lambda>_. False) Connects sample_session))
 \<and> sessionRef (state_of (startSession (\<lambda>_. False) Connects sample_session))
 \<and> vadRef (state_of (startSession (\<lambda>_. False) Connects sample_session))
     = \<lparr>wasUserTalking = True, lastSilenceTime = 1000\<rparr>
 \<and> vadRef (state_of (startSession (\<lambda>_. False) Connects sample_session)) \<noteq> initial_vad
 \<and> \<not> isUserTalkingLocal (state_of (startSession (\<lambda>_. False) Connects sample_session))
 \<and> map_option event (onaudioprocess ieee_arith loud_frame
       (vadRef (state_of (startSession (\<lambda>_. False) Connects sample_session)))) = Some None"
proof -
  have one: "to_float64 1 = 1" "to_float32 1 = 1" by (simp_all add: rounding_eval)
  show ?thesis
    by (simp add: startSession_def cleanup_eq state_of_def sample_session_def initial_vad_def
        onaudioprocess_def loud_frame_def measured_rms_def js_rms_def exceeds_def vad_step_def
        ieee_arith_def Let_def one)
qed

theorem teardown_idempotent_witness:
  "cleanup (\<lambda>_. True) sample_session = Returned (state_of (cleanup (\<lambda>_. True) sample_session))
 \<and> cleanup (\<lambda>_. False) (state_of (cleanup (\<lambda>_. True) sample_session))
      = Returned (state_of (cleanup (\<lambda>_. True) sample_session))
 \<and> sourcesRef (state_of (cleanup (\<lambda>_. True) sample_session)) = []
 \<and> SourceStop \<lparr>duration = 2, startTime = 3, playbackRate = 1\<rparr>
      \<in> set (effects (state_of (cleanup (\<lambda>_. True) sample_session)))"
proof -
  have src: "\<lparr>duration = 2, startTime = 3, playbackRate = 1\<rparr> \<in> set (sourcesRef sample_session)"
    by (simp add: sample_session_def)
  from teardown_idempotent [of "\<lambda>_. True" sample_session "\<lambda>_. False"] src
  show ?thesis by (auto simp: state_of_def)
qed

section \<open>Playback scheduling\<close>












section \<open>Interruption and turn completion\<close>











lemma dropWhile_hd_not: "dropWhile P xs \<noteq> [] \<Longrightarrow> \<not> P (hd (dropWhile P xs))"
  by (induction xs) auto





section \<open>Grammar checker\<close>

text \<open>
  C8. Whatever the grammar checker answers for a text with timestamp \<open>t\<close>, the entries
  keep their number and order, every entry keeps its role, text and timestamp, every entry
  with another timestamp is unchanged, and an entry that did change got the corrected text
  of the answer as its correction and nothing else.
\<close>

theorem correction_attach_frame:
  assumes "checkGrammar activeChallenge outcome str ts es = (es', request)"
  shows "length es' = length es
       \<and> (\<forall>i<length es.
            role (es' ! i) = role (es ! i) \<and> etext (es' ! i) = etext (es ! i)
          \<and> timestamp (es' ! i) = timestamp (es ! i)
          \<and> (timestamp (es ! i) \<noteq> ts \<longrightarrow> es' ! i = es ! i)
          \<and> (es' ! i \<noteq> es ! i \<longrightarrow>
               (\<exists>c. outcome = Parsed (Some (js ''CORRECTION'')) (Some c) \<and> c \<noteq> []
                    \<and> es' ! i = (es ! i)\<lparr>correction := Some c\<rparr>)))"
  using assms
  by (auto simp: checkGrammar_def split: if_splits grammar_outcome.splits)

lemma js_split_space_nonempty: "js_split_space str \<noteq> []"
  by (induction str) (auto split: list.splits)

lemma js_split_space_length: "length (js_split_space str) = Suc (length (filter (\<lambda>c. c = 32) str))"
  by (induction str) (auto split: list.splits simp: js_split_space_nonempty)

lemma js_split_space_hd: "c \<noteq> 32 \<Longrightarrow> hd (js_split_space (c # cs)) \<noteq> []"
  by (auto split: list.splits)

lemma js_split_space_last: "str \<noteq> [] \<Longrightarrow> last str \<noteq> 32 \<Longrightarrow> last (js_split_space str) \<noteq> []"
proof (induction str)
  case Nil
  then show ?case by simp
next
  case (Cons c cs)
  show ?case
  proof (cases "cs = []")
    case True
    with Cons.prems show ?thesis by simp
  next
    case False
    with Cons have IH: "last (js_split_space cs) \<noteq> []" by simp
    obtain p ps where ps: "js_split_space cs = p # ps"
      using js_split_space_nonempty [of cs] by (cases "js_split_space cs") auto
    show ?thesis using IH ps by (cases ps) auto
  qed
qed

lemma two_nonempty_ends:
  assumes "2 \<le> length xs" and "P (hd xs)" and "P (last xs)"
  shows "2 \<le> length (filter P xs)"
proof -
  from assms(1) obtain x zs where xz: "xs = x # zs" "zs \<noteq> []"
    by (cases xs) fastforce+
  then obtain ys y where "zs = ys @ [y]"
    by (cases zs rule: rev_cases) auto
  with xz assms(2,3) show ?thesis by simp
qed

lemma js_trim_fixed_ends:
  assumes "js_trim str = str" and "str \<noteq> []"
  shows "\<not> is_js_whitespace (hd str) \<and> \<not> is_js_whitespace (last str)"
proof -
  let ?d = "dropWhile is_js_whitespace str"
  let ?e = "dropWhile is_js_whitespace (rev ?d)"
  have e: "rev ?e = str" using assms(1) by (simp add: js_trim_def)
  have ne: "?e \<noteq> []" using e assms(2) by (metis rev.simps(1))
  have "\<not> is_js_whitespace (hd ?e)" using ne by (rule dropWhile_hd_not)
  moreover have "hd ?e = last str" using e ne by (metis hd_rev rev_rev_ident)
  ultimately have l: "\<not> is_js_whitespace (last str)" by simp
  have "length str = length ?e" using e by (metis length_rev)
  also have "\<dots> \<le> length (rev ?d)" by (rule length_dropWhile_le)
  finally have "length str \<le> length ?d" by simp
  moreover have "length ?d \<le> length str" by (rule length_dropWhile_le)
  ultimately have "length ?d = length str" by simp
  then have "?d = str"
    by (metis append_eq_append_conv append_self_conv2 takeWhile_dropWhile_id length_append add_cancel_left_left length_0_conv)
  then have "\<not> is_js_whitespace (hd str)" using assms(2) dropWhile_hd_not [of is_js_whitespace str] by simp
  with l show ?thesis by simp
qed

lemma space_is_whitespace: "is_js_whitespace 32"
  by (simp add: is_js_whitespace_def)

lemma finalized_words:
  assumes "js_trim str = str" and "str \<noteq> []" and "2 \<le> length (js_split_space str)"
  shows "2 \<le> length (space_separated_words str)"
proof -
  from js_trim_fixed_ends [OF assms(1,2)] space_is_whitespace
  have h: "hd str \<noteq> 32" and l: "last str \<noteq> 32" by auto
  obtain c cs where str: "str = c # cs" using assms(2) by (cases str) auto
  have "hd (js_split_space str) \<noteq> []" using h js_split_space_hd [of c cs] by (simp add: str)
  moreover have "last (js_split_space str) \<noteq> []" using js_split_space_last [OF assms(2) l] .
  ultimately show ?thesis
    unfolding space_separated_words_def using assms(3) by (intro two_nonempty_ends) auto
qed

text \<open>The text handed to the checker at turn completion is trimmed, and trimming it again
  changes nothing.\<close>

lemma js_trim_idem: "js_trim (js_trim s) = js_trim s"
proof (cases "js_trim s = []")
  case True
  have "js_trim [] = []" by (simp add: js_trim_def)
  with True show ?thesis by simp
next
  case False
  let ?d = "dropWhile is_js_whitespace s"
  let ?e = "dropWhile is_js_whitespace (rev ?d)"
  have t: "js_trim s = rev ?e" by (simp add: js_trim_def)
  from False have ne: "?e \<noteq> []" by (simp add: t)
  then have dne: "?d \<noteq> []" by (metis dropWhile.simps(1) rev.simps(1))
  have e1: "\<not> is_js_whitespace (hd ?e)" using ne by (rule dropWhile_hd_not)
  have d1: "\<not> is_js_whitespace (hd ?d)" using dne by (rule dropWhile_hd_not)
  obtain us where us: "rev ?d = us @ ?e"
    by (metis takeWhile_dropWhile_id)
  then have "?d = rev ?e @ rev us" by (metis rev_append rev_rev_ident)
  then have "hd (rev ?e) = hd ?d" using ne by (metis hd_append2 rev_is_Nil_conv)
  with d1 have "dropWhile is_js_whitespace (rev ?e) = rev ?e"
    using ne by (cases "rev ?e") auto
  moreover have "dropWhile is_js_whitespace ?e = ?e"
    using e1 ne by (cases ?e) auto
  ultimately show ?thesis by (simp add: js_trim_def)
qed

text \<open>
  The guards of \<open>checkGrammar\<close>: for a text that is empty, or has fewer than two
  space-separated pieces, or is a finalized (trimmed) text of fewer than two words, and
  for any text when the challenge the function reads is active, the grammar check issues
  no request and leaves the entries as they are, whatever the checker would have answered.
\<close>

lemma checkGrammar_guard:
  assumes "str = [] \<or> length (js_split_space str) < 2
         \<or> (js_trim str = str \<and> length (space_separated_words str) < 2)
         \<or> activeChallenge = Some Active"
  shows "checkGrammar activeChallenge outcome str ts es = (es, None)"
proof -
  have "length (js_split_space str) < 2"
    if "js_trim str = str" and "length (space_separated_words str) < 2" and "str \<noteq> []"
    using finalized_words [OF that(1,3)] that(2) by (cases "2 \<le> length (js_split_space str)") auto
  with assms show ?thesis
    by (auto simp: checkGrammar_def)
qed

lemma checkGrammar_guard_example:
  "length (js_split_space (js ''hello'')) < 2
 \<and> checkGrammar None sample_correction (js ''hello'') 1700 sample_entries = (sample_entries, None)
 \<and> checkGrammar (Some Active) sample_correction (js ''hi there'') 1700 sample_entries
      = (sample_entries, None)"
proof -
  have h: "length (js_split_space (js ''hello'')) < 2" by (simp add: js_def)
  from checkGrammar_guard [of "js ''hello''" None sample_correction 1700 sample_entries]
       checkGrammar_guard [of "js ''hi there''" "Some Active" sample_correction 1700 sample_entries]
       h
  show ?thesis by simp
qed

text \<open>
  C10 in a running session. A short text is stopped by the guard. A two-word text that
  arrives while a challenge is active, in a session whose \<open>startSession\<close> was created when
  there was no challenge, is not: the request is issued and the correction is attached to
  the entry.
\<close>

theorem session_grammar_check_example:
  "session_checkGrammar None (Some Active) sample_correction (js ''hello'') 1700 sample_entries
     = (sample_entries, None)
 \<and> session_checkGrammar None (Some Active) sample_correction (js ''hi there'') 1700 sample_entries
     = ([\<lparr>role = User, etext = js ''hi there'', timestamp = 1700,
           correction = Some (js ''Hi there'')\<rparr>,
         \<lparr>role = Model, etext = js ''ok'', timestamp = 1701, correction = None\<rparr>],
        Some (js ''hi there''))"
  by (simp add: session_checkGrammar_def checkGrammar_def sample_correction_def
      sample_entries_def js_def)

theorem correction_attach_frame_witness:
  "checkGrammar None sample_correction (js ''hi there'') 1700 sample_entries =
     ([\<lparr>role = User, etext = js ''hi there'', timestamp = 1700, correction = Some (js ''Hi there'')\<rparr>,
       \<lparr>role = Model, etext = js ''ok'', timestamp = 1701, correction = None\<rparr>],
      Some (js ''hi there''))
 \<and> (1::nat) < length sample_entries \<and> timestamp (sample_entries ! 1) \<noteq> 1700
 \<and> [\<lparr>role = User, etext = js ''hi there'', timestamp = 1700, correction = Some (js ''Hi there'')\<rparr>,
      \<lparr>role = Model, etext = js ''ok'', timestamp = 1701, correction = None\<rparr>] ! 1
     = sample_entries ! 1"
proof -
  let ?es' = "[\<lparr>role = User, etext = js ''hi there'', timestamp = 1700, correction = Some (js ''Hi there'')\<rparr>,
       \<lparr>role = Model, etext = js ''ok'', timestamp = 1701, correction = None\<rparr>]"
  have h: "checkGrammar None sample_correction (js ''hi there'') 1700 sample_entries =
      (?es', Some (js ''hi there''))"
    by (simp add: checkGrammar_def sample_correction_def sample_entries_def js_def)
  have i: "(1::nat) < length sample_entries \<and> timestamp (sample_entries ! 1) \<noteq> 1700"
    by (simp add: sample_entries_def)
  from correction_attach_frame [OF h] i have "?es' ! 1 = sample_entries ! 1" by blast
  with h i show ?thesis by simp
qed

end
